theory Spec2Isabelle
  imports Main "HOL-Library.AList"
begin

section \<open>The verification bot of \<^verbatim>\<open>bot.py\<close>\<close>

text \<open>
  The program keeps two module-level dictionaries, \<^verbatim>\<open>nickname_role_db\<close> (nickname to
  list of role ids) and \<^verbatim>\<open>pending_verifications\<close> (user id to guild id), and reacts to
  three events: a member joining, a message, and the \<^verbatim>\<open>/addnickname\<close> command.
  A Python dictionary is modelled as an association list handled through \<open>map_of\<close>,
  \<open>AList.update\<close> (an existing key keeps its place, a new key goes to the end) and
  \<open>AList.delete\<close>. Python integers are \<open>int\<close>. A string is a HOL \<open>string\<close>, each
  character standing for a code point below 256.

  Every handler returns, next to the new state, the list of the calls it issued, in order:
  messages handed to \<^verbatim>\<open>channel.send\<close>, the \<^verbatim>\<open>add_roles\<close> call, reads of the registry,
  deletions from the pending dictionary and calls of \<^verbatim>\<open>save_database\<close>. A call is
  recorded when it is issued, whether it returns or raises. Whether \<^verbatim>\<open>channel.send\<close> and
  \<^verbatim>\<open>add_roles\<close> return or raise is a parameter of the platform. An exception that no
  \<^verbatim>\<open>except\<close> clause of the handler catches leaves the handler: the run ends there, with
  the state as it is at that point. Handlers run one after the other.
\<close>

subsection \<open>Strings: \<^verbatim>\<open>str.strip\<close>, \<^verbatim>\<open>str.isdigit\<close>, \<^verbatim>\<open>int\<close>\<close>

text \<open>Code points below 256 for which \<^verbatim>\<open>str.isspace\<close> holds: TAB to CR, FS to US, space,
  NEL and the no-break space.\<close>

definition py_isspace :: "char \<Rightarrow> bool" where
  "py_isspace c = ((of_char c :: nat) \<in> set [9, 10, 11, 12, 13, 28, 29, 30, 31, 32, 133, 160])"

text \<open>\<^verbatim>\<open>s.strip()\<close>: whitespace removed at both ends, nothing else touched.\<close>

definition strip :: "string \<Rightarrow> string" where
  "strip s = rev (dropWhile py_isspace (rev (dropWhile py_isspace s)))"

definition ascii_digit :: "char \<Rightarrow> bool" where
  "ascii_digit c = (48 \<le> (of_char c :: nat) \<and> (of_char c :: nat) \<le> 57)"

text \<open>Code points below 256 that \<^verbatim>\<open>str.isdigit\<close> accepts: the ten ASCII digits and the
  superscripts two, three and one.\<close>

definition py_isdigit_char :: "char \<Rightarrow> bool" where
  "py_isdigit_char c = (ascii_digit c \<or> (of_char c :: nat) \<in> set [178, 179, 185])"

definition py_isdigit :: "string \<Rightarrow> bool" where
  "py_isdigit s = (s \<noteq> [] \<and> list_all py_isdigit_char s)"

datatype load_error = AttributeError | ValueError

text \<open>\<^verbatim>\<open>int(s)\<close> on a string that passed \<^verbatim>\<open>isdigit\<close>: the decimal value when every character
  is an ASCII digit, \<^verbatim>\<open>ValueError\<close> on a superscript digit. The interpreter's optional limit
  on the length of a decimal string is not modelled.\<close>

definition py_int_of_digits :: "string \<Rightarrow> load_error + int" where
  "py_int_of_digits s =
     (if list_all ascii_digit s
      then Inr (foldl (\<lambda>a c. 10 * a + (int (of_char c) - 48)) 0 s)
      else Inl ValueError)"

subsection \<open>Platform objects\<close>

record role =
  role_id :: int
  role_name :: string
  position :: int

record member =
  member_id :: int
  member_name :: string
  member_bot :: bool
  member_guild_id :: int

record guild =
  guild_name :: string
  get_member :: "int \<Rightarrow> member option"
  get_role :: "int \<Rightarrow> role option"
  me_top_role :: role

text \<open>What a call of the library raises, by the three \<^verbatim>\<open>except\<close> clauses of the source, in
  their order: \<^verbatim>\<open>discord.Forbidden\<close>, any other \<^verbatim>\<open>discord.HTTPException\<close>, any other
  \<^verbatim>\<open>Exception\<close>.\<close>

datatype platform_error = Forbidden | HTTPException | OtherException

record message =
  author_bot :: bool
  author_id :: int
  is_dm :: bool
  content :: string

subsection \<open>State, messages and issued calls\<close>

type_synonym registry = "(string \<times> int list) list"

record state =
  nickname_role_db :: registry
  pending_verifications :: "(int \<times> int) list"

text \<open>The texts the message handler sends, one constructor per template of the source,
  with the values the template interpolates.\<close>

datatype reply =
    NoPermissionForRole string
  | VerificationSuccessful "string list"
  | NoteRolesNotFound "int list"
  | LacksManageRoles
  | TryAgainLater
  | UnexpectedError
  | NotRecognized
  | Welcome string int

datatype event =
    Lookup string
  | Send reply
  | AddRoles int "role list" string
  | DelPending int
  | SaveDatabase registry

text \<open>
  What the handlers ask of the library: \<^verbatim>\<open>bot.get_guild\<close>, the order \<^verbatim>\<open>>\<close> on roles
  (\<open>role_gt a b\<close> is \<^verbatim>\<open>a > b\<close>), the result of \<^verbatim>\<open>member.add_roles(*roles, reason=...)\<close> and
  the result of \<^verbatim>\<open>message.channel.send(text)\<close>, given the calls the run has issued before
  it: \<open>None\<close> when the call returns, the exception otherwise.
\<close>

record platform =
  get_guild :: "int \<Rightarrow> guild option"
  role_gt :: "role \<Rightarrow> role \<Rightarrow> bool"
  add_roles :: "member \<Rightarrow> role list \<Rightarrow> string \<Rightarrow> platform_error option"
  send_result :: "event list \<Rightarrow> reply \<Rightarrow> platform_error option"

text \<open>
  The branch on which \<^verbatim>\<open>on_message\<close> ends. \<open>Ignored\<close>: a bot's message, or not a direct
  message of a pending user. \<open>StalePending\<close>: the early return on a falsy guild id.
  \<open>GuildGone\<close>, \<open>MemberGone\<close>: the two clean-up returns. \<open>Success\<close>: the \<^verbatim>\<open>try\<close> block ran
  through. \<open>PermissionDenied\<close>: \<^verbatim>\<open>except discord.Forbidden\<close>. \<open>TransientFailure\<close>: the two
  other \<^verbatim>\<open>except\<close> clauses. \<open>HierarchyBlocked\<close>: the \<^verbatim>\<open>elif\<close> after the loop. \<open>Unclassified\<close>:
  neither the \<^verbatim>\<open>if\<close> nor the \<^verbatim>\<open>elif\<close> after the loop applies. \<open>NotFound\<close>: the \<^verbatim>\<open>else\<close> of
  the lookup. \<open>Raised e\<close>: the exception \<open>e\<close> of a \<^verbatim>\<open>channel.send\<close> left the handler.
\<close>

datatype outcome =
    Ignored
  | StalePending
  | GuildGone
  | MemberGone
  | Success
  | NotFound
  | PermissionDenied
  | TransientFailure
  | HierarchyBlocked
  | Unclassified
  | Raised platform_error

definition is_raised :: "outcome \<Rightarrow> bool" where
  "is_raised c = (case c of Raised e \<Rightarrow> True | _ \<Rightarrow> False)"

subsection \<open>\<^verbatim>\<open>load_database\<close>\<close>

text \<open>
  The value \<^verbatim>\<open>json.load\<close> returns. A float is kept as significand and decimal exponent;
  the loader only tests its type. An object is its members in document order.
\<close>

datatype json =
    JNull
  | JBool bool
  | JInt int
  | JFloat int int
  | JStr string
  | JArr "json list"
  | JObj "(string \<times> json) list"

text \<open>
  What the loader finds at \<^verbatim>\<open>DATABASE_FILE\<close>: no file (\<^verbatim>\<open>os.path.exists\<close> is false), a file
  that \<^verbatim>\<open>open\<close> or the read fails on with \<^verbatim>\<open>IOError\<close>, a text on which \<^verbatim>\<open>json.load\<close> raises
  \<^verbatim>\<open>JSONDecodeError\<close>, or a document.
\<close>

datatype backing_store = NoFile | Unreadable | Malformed | Document json

text \<open>
  The element test and conversion of the list comprehension
  \<^verbatim>\<open>[int(r) for r in roles if isinstance(r, (int, str)) and str(r).isdigit()]\<close>:
  \<open>Inr None\<close> when the element is filtered out. A Python \<^verbatim>\<open>bool\<close> is an \<^verbatim>\<open>int\<close>, whose
  text \<^verbatim>\<open>True\<close> or \<^verbatim>\<open>False\<close> is not a digit string; the text of an integer is a
  digit string exactly when the integer is not negative.
\<close>

fun coerce_role :: "json \<Rightarrow> load_error + int option" where
  "coerce_role (JInt n) = Inr (if 0 \<le> n then Some n else None)"
| "coerce_role (JBool b) = Inr None"
| "coerce_role (JStr s) =
     (if py_isdigit s
      then (case py_int_of_digits s of Inl e \<Rightarrow> Inl e | Inr n \<Rightarrow> Inr (Some n))
      else Inr None)"
| "coerce_role _ = Inr None"

fun coerce_roles :: "json list \<Rightarrow> load_error + int list" where
  "coerce_roles [] = Inr []"
| "coerce_roles (r # rs) =
     (case coerce_role r of
        Inl e \<Rightarrow> Inl e
      | Inr v \<Rightarrow>
          (case coerce_roles rs of
             Inl e \<Rightarrow> Inl e
           | Inr ns \<Rightarrow> Inr (case v of None \<Rightarrow> ns | Some n \<Rightarrow> n # ns)))"

text \<open>The body of the loop over \<^verbatim>\<open>nickname_role_db.items()\<close>: a list is filtered, anything
  else becomes the empty list.\<close>

fun coerce_value :: "json \<Rightarrow> load_error + int list" where
  "coerce_value (JArr rs) = coerce_roles rs"
| "coerce_value _ = Inr []"

fun coerce_items :: "(string \<times> json) list \<Rightarrow> load_error + registry" where
  "coerce_items [] = Inr []"
| "coerce_items ((nickname, roles) # rest) =
     (case coerce_value roles of
        Inl e \<Rightarrow> Inl e
      | Inr ids \<Rightarrow>
          (case coerce_items rest of
             Inl e \<Rightarrow> Inl e
           | Inr db \<Rightarrow> Inr ((nickname, ids) # db)))"

text \<open>The dictionary \<^verbatim>\<open>json.load\<close> builds from an object: a repeated key keeps its first
  place and its last value.\<close>

definition dict_of_members :: "(string \<times> json) list \<Rightarrow> (string \<times> json) list" where
  "dict_of_members kvs = foldl (\<lambda>d (k, v). AList.update k v d) [] kvs"

text \<open>
  \<^verbatim>\<open>load_database\<close>; \<open>Inr\<close> holds the registry the function leaves in \<^verbatim>\<open>nickname_role_db\<close>
  when it returns. The \<^verbatim>\<open>except\<close> clause catches \<^verbatim>\<open>json.JSONDecodeError\<close> and \<^verbatim>\<open>IOError\<close>
  only. On a document that is not an object \<^verbatim>\<open>.items()\<close> raises \<^verbatim>\<open>AttributeError\<close>, and
  \<^verbatim>\<open>int\<close> may raise \<^verbatim>\<open>ValueError\<close>; both leave the function (\<open>Inl\<close>).
\<close>

fun load_database :: "backing_store \<Rightarrow> load_error + registry" where
  "load_database NoFile = Inr []"
| "load_database Unreadable = Inr []"
| "load_database Malformed = Inr []"
| "load_database (Document (JObj kvs)) = coerce_items (dict_of_members kvs)"
| "load_database (Document _) = Inl AttributeError"

subsection \<open>\<^verbatim>\<open>on_member_join\<close>\<close>

text \<open>The entry is stored before the welcome message is sent. The send sits in a \<^verbatim>\<open>try\<close>
  whose \<^verbatim>\<open>except\<close> clauses catch \<^verbatim>\<open>discord.Forbidden\<close> and \<^verbatim>\<open>Exception\<close>, so the handler returns
  with the entry stored whether the send returns or raises.\<close>

definition on_member_join :: "string \<Rightarrow> member \<Rightarrow> state \<Rightarrow> event list \<times> state" where
  "on_member_join gname m s =
     (if member_bot m then ([], s)
      else ([Send (Welcome gname (member_id m))],
            s\<lparr>pending_verifications :=
                AList.update (member_id m) (member_guild_id m) (pending_verifications s)\<rparr>))"

subsection \<open>\<^verbatim>\<open>on_message\<close>\<close>

text \<open>\<^verbatim>\<open>await message.channel.send(text)\<close> after the calls \<open>evs\<close>: the call is recorded, and
  the platform says whether it returns (\<open>None\<close>) or raises.\<close>

definition channel_send ::
  "platform \<Rightarrow> reply \<Rightarrow> event list \<Rightarrow> platform_error option \<times> event list" where
  "channel_send p r evs = (send_result p evs r, evs @ [Send r])"

text \<open>
  The loop over \<^verbatim>\<open>roles_to_assign_ids\<close>, with its two lists \<^verbatim>\<open>roles_to_add_objects\<close> and
  \<^verbatim>\<open>not_found_role_ids\<close> and the calls issued so far as accumulators. The notice for a role
  that is not below the acting account's top role is sent inside the loop and outside
  any \<^verbatim>\<open>try\<close>: when the send raises, the loop and the handler end there (\<open>Inl\<close>).
\<close>

fun resolve_roles ::
  "platform \<Rightarrow> guild \<Rightarrow> int list \<Rightarrow> role list \<Rightarrow> int list \<Rightarrow> event list
     \<Rightarrow> (platform_error \<times> event list) + (role list \<times> int list \<times> event list)" where
  "resolve_roles p g [] roles_to_add not_found evs = Inr (roles_to_add, not_found, evs)"
| "resolve_roles p g (rid # rest) roles_to_add not_found evs =
     (case get_role g rid of
        Some r \<Rightarrow>
          if role_gt p (me_top_role g) r
          then resolve_roles p g rest (roles_to_add @ [r]) not_found evs
          else
            (case send_result p evs (NoPermissionForRole (role_name r)) of
               Some e \<Rightarrow> Inl (e, evs @ [Send (NoPermissionForRole (role_name r))])
             | None \<Rightarrow>
                 resolve_roles p g rest roles_to_add not_found
                   (evs @ [Send (NoPermissionForRole (role_name r))]))
      | None \<Rightarrow> resolve_roles p g rest roles_to_add (not_found @ [rid]) evs)"

definition audit_reason :: "string \<Rightarrow> string" where
  "audit_reason nickname = ''Verified via nickname: '' @ nickname"

text \<open>
  The body of the \<^verbatim>\<open>try\<close>: \<^verbatim>\<open>add_roles\<close>, the success message and, when some ids were not
  found, the note. The first call that raises ends the body with its exception.
\<close>

definition try_assign ::
  "platform \<Rightarrow> member \<Rightarrow> role list \<Rightarrow> int list \<Rightarrow> string \<Rightarrow> event list
     \<Rightarrow> platform_error option \<times> event list" where
  "try_assign p mem roles_to_add not_found nickname evs =
     (let evs1 = evs @ [AddRoles (member_id mem) roles_to_add (audit_reason nickname)] in
      case add_roles p mem roles_to_add (audit_reason nickname) of
        Some e \<Rightarrow> (Some e, evs1)
      | None \<Rightarrow>
          (case channel_send p (VerificationSuccessful (map role_name roles_to_add)) evs1 of
             (Some e, evs2) \<Rightarrow> (Some e, evs2)
           | (None, evs2) \<Rightarrow>
               if not_found \<noteq> [] then channel_send p (NoteRolesNotFound not_found) evs2
               else (None, evs2)))"

text \<open>An \<^verbatim>\<open>except\<close> clause: it sends its message, outside any \<^verbatim>\<open>try\<close>; when that send raises,
  the exception leaves the handler.\<close>

definition except_clause ::
  "platform \<Rightarrow> reply \<Rightarrow> outcome \<Rightarrow> event list \<Rightarrow> outcome \<times> event list" where
  "except_clause p r c evs =
     (case channel_send p r evs of
        (Some e, evs') \<Rightarrow> (Raised e, evs')
      | (None, evs') \<Rightarrow> (c, evs'))"

text \<open>The \<^verbatim>\<open>try\<close> statement: the body, and the clause that catches what the body raised.\<close>

definition assign_roles ::
  "platform \<Rightarrow> member \<Rightarrow> role list \<Rightarrow> int list \<Rightarrow> string \<Rightarrow> event list
     \<Rightarrow> outcome \<times> event list" where
  "assign_roles p mem roles_to_add not_found nickname evs =
     (case try_assign p mem roles_to_add not_found nickname evs of
        (None, evs') \<Rightarrow> (Success, evs')
      | (Some Forbidden, evs') \<Rightarrow> except_clause p LacksManageRoles PermissionDenied evs'
      | (Some HTTPException, evs') \<Rightarrow> except_clause p TryAgainLater TransientFailure evs'
      | (Some OtherException, evs') \<Rightarrow> except_clause p UnexpectedError TransientFailure evs')"

text \<open>The \<^verbatim>\<open>else\<close> of the lookup: the message that the nickname was not recognized, sent
  outside any \<^verbatim>\<open>try\<close>.\<close>

definition not_recognized :: "platform \<Rightarrow> event list \<Rightarrow> outcome \<times> event list" where
  "not_recognized p evs =
     (case channel_send p NotRecognized evs of
        (Some e, evs') \<Rightarrow> (Raised e, evs')
      | (None, evs') \<Rightarrow> (NotFound, evs'))"

text \<open>Lines 158 to 215: lookup of the nickname and what follows from it.\<close>

definition match_and_assign ::
  "platform \<Rightarrow> guild \<Rightarrow> member \<Rightarrow> string \<Rightarrow> registry \<Rightarrow> outcome \<times> event list" where
  "match_and_assign p g mem nickname db =
     (case map_of db nickname of
        None \<Rightarrow> not_recognized p [Lookup nickname]
      | Some ids \<Rightarrow>
          if ids = [] then not_recognized p [Lookup nickname]
          else
            (case resolve_roles p g ids [] [] [Lookup nickname] of
               Inl (e, evs) \<Rightarrow> (Raised e, evs)
             | Inr (roles_to_add, not_found, evs) \<Rightarrow>
                 if roles_to_add \<noteq> [] then assign_roles p mem roles_to_add not_found nickname evs
                 else if not_found = [] then (HierarchyBlocked, evs)
                 else (Unclassified, evs)))"

text \<open>The closing \<^verbatim>\<open>if user_id in pending_verifications: del ...\<close>.\<close>

definition remove_pending :: "int \<Rightarrow> state \<Rightarrow> event list \<times> state" where
  "remove_pending user_id s =
     (if map_of (pending_verifications s) user_id \<noteq> None
      then ([DelPending user_id],
            s\<lparr>pending_verifications := AList.delete user_id (pending_verifications s)\<rparr>)
      else ([], s))"

definition del_pending :: "int \<Rightarrow> state \<Rightarrow> state" where
  "del_pending user_id s =
     s\<lparr>pending_verifications := AList.delete user_id (pending_verifications s)\<rparr>"

text \<open>
  The handler. The closing removal is a plain statement after the lookup and assignment,
  not a \<^verbatim>\<open>finally\<close>: a run that an exception leaves does not reach it.
\<close>

definition on_message :: "platform \<Rightarrow> message \<Rightarrow> state \<Rightarrow> outcome \<times> event list \<times> state" where
  "on_message p msg s =
     (if author_bot msg then (Ignored, [], s)
      else if is_dm msg \<and> map_of (pending_verifications s) (author_id msg) \<noteq> None then
        (let user_id = author_id msg in
         case map_of (pending_verifications s) user_id of
           None \<Rightarrow> (StalePending, [], s)
         | Some guild_id \<Rightarrow>
             if guild_id = 0 then (StalePending, [], s)
             else
               (case get_guild p guild_id of
                  None \<Rightarrow> (GuildGone, [DelPending user_id], del_pending user_id s)
                | Some g \<Rightarrow>
                    (case get_member g user_id of
                       None \<Rightarrow> (MemberGone, [DelPending user_id], del_pending user_id s)
                     | Some mem \<Rightarrow>
                         (case match_and_assign p g mem (strip (content msg))
                                 (nickname_role_db s) of
                            (c, evs) \<Rightarrow>
                              if is_raised c then (c, evs, s)
                              else
                                (case remove_pending user_id s of
                                   (evs', s') \<Rightarrow> (c, evs @ evs', s'))))))
      else (Ignored, [], s))"

subsection \<open>\<^verbatim>\<open>save_database\<close> and \<^verbatim>\<open>add_nickname\<close>\<close>

text \<open>\<^verbatim>\<open>save_database\<close> dumps the registry to the file and catches an \<^verbatim>\<open>IOError\<close>; whether the
  write succeeds or not it returns, and the registry in memory is the same. The call is
  recorded with the registry it dumps.\<close>

definition save_database :: "registry \<Rightarrow> event list" where
  "save_database db = [SaveDatabase db]"


text \<open>The message handed to \<^verbatim>\<open>interaction.response.send_message\<close>, the last statement on
  each of the four paths.\<close>

datatype response =
    EmptyNickname
  | AlreadyLinked string string
  | Linked string string string

definition add_nickname :: "string \<Rightarrow> role \<Rightarrow> state \<Rightarrow> response \<times> event list \<times> state" where
  "add_nickname nickname r s =
     (let nickname_clean = strip nickname; rid = role_id r; db = nickname_role_db s in
      if nickname_clean = [] then (EmptyNickname, [], s)
      else
        (case map_of db nickname_clean of
           Some ids \<Rightarrow>
             if rid \<notin> set ids then
               (let db' = AList.update nickname_clean (ids @ [rid]) db in
                (Linked ''updated'' nickname_clean (role_name r), save_database db',
                 s\<lparr>nickname_role_db := db'\<rparr>))
             else (AlreadyLinked nickname_clean (role_name r), [], s)
         | None \<Rightarrow>
             (let db' = AList.update nickname_clean [rid] db in
              (Linked ''added'' nickname_clean (role_name r), save_database db',
               s\<lparr>nickname_role_db := db'\<rparr>))))"

subsection \<open>The grant resolution result, in the specification's words\<close>

text \<open>
  The four lists of the specification's grant resolution result, defined from the
  registered ids and the platform alone: the roles that still exist, those among them
  strictly below the acting account's top role, the others, and the ids that no longer
  resolve. They are compared with the loop of the source below.
\<close>

definition resolved :: "guild \<Rightarrow> int list \<Rightarrow> role list" where
  "resolved g ids = List.map_filter (get_role g) ids"

definition assignable :: "platform \<Rightarrow> guild \<Rightarrow> int list \<Rightarrow> role list" where
  "assignable p g ids = filter (\<lambda>r. role_gt p (me_top_role g) r) (resolved g ids)"

definition unassignable_by_hierarchy :: "platform \<Rightarrow> guild \<Rightarrow> int list \<Rightarrow> role list" where
  "unassignable_by_hierarchy p g ids =
     filter (\<lambda>r. \<not> role_gt p (me_top_role g) r) (resolved g ids)"

definition unknown_removed :: "guild \<Rightarrow> int list \<Rightarrow> int list" where
  "unknown_removed g ids = filter (\<lambda>rid. get_role g rid = None) ids"

definition blocked_notice :: "role \<Rightarrow> event" where
  "blocked_notice r = Send (NoPermissionForRole (role_name r))"

definition is_add_roles :: "event \<Rightarrow> bool" where
  "is_add_roles e = (case e of AddRoles u rs reason \<Rightarrow> True | _ \<Rightarrow> False)"

definition is_del_pending :: "event \<Rightarrow> bool" where
  "is_del_pending e = (case e of DelPending u \<Rightarrow> True | _ \<Rightarrow> False)"

text \<open>The registry invariant: no role id twice in the list of a nickname. The same for
  the lists a stored document holds, after the loader's filter.\<close>

definition grants_unique :: "registry \<Rightarrow> bool" where
  "grants_unique db = list_all (\<lambda>(nickname, ids). distinct ids) db"

definition stored_unique :: "(string \<times> json) list \<Rightarrow> bool" where
  "stored_unique kvs =
     list_all (\<lambda>(nickname, v). case coerce_value v of Inr ids \<Rightarrow> distinct ids | Inl e \<Rightarrow> True) kvs"

subsection \<open>A small guild to run the handlers on\<close>

definition pilot_role :: role where
  "pilot_role = \<lparr>role_id = 20, role_name = ''Pilot'', position = 5\<rparr>"

definition admiral_role :: role where
  "admiral_role = \<lparr>role_id = 10, role_name = ''Admiral'', position = 30\<rparr>"

definition bot_role :: role where
  "bot_role = \<lparr>role_id = 1, role_name = ''Verifier'', position = 15\<rparr>"

definition demo_member :: member where
  "demo_member =
     \<lparr>member_id = 7, member_name = ''newcomer'', member_bot = False, member_guild_id = 42\<rparr>"

definition demo_guild :: guild where
  "demo_guild =
     \<lparr>guild_name = ''Hangar'',
      get_member = (\<lambda>u. if u = 7 then Some demo_member else None),
      get_role =
        (\<lambda>i. if i = 10 then Some admiral_role else if i = 20 then Some pilot_role else None),
      me_top_role = bot_role\<rparr>"

text \<open>Guild 42 is known, guild 43 is not; in guild 44 nobody is a member. Every call of
  \<^verbatim>\<open>add_roles\<close> and of \<^verbatim>\<open>channel.send\<close> returns.\<close>

definition demo_platform :: platform where
  "demo_platform =
     \<lparr>get_guild =
        (\<lambda>i. if i = 42 then Some demo_guild
             else if i = 44 then Some (demo_guild\<lparr>get_member := (\<lambda>u. None)\<rparr>)
             else None),
      role_gt = (\<lambda>a b. position b < position a),
      add_roles = (\<lambda>m rs reason. None),
      send_result = (\<lambda>evs r. None)\<rparr>"

text \<open>The same platform for a user to whom the acting account cannot send direct
  messages: every \<^verbatim>\<open>channel.send\<close> raises \<^verbatim>\<open>discord.Forbidden\<close>.\<close>

definition closed_dm_platform :: platform where
  "closed_dm_platform = demo_platform\<lparr>send_result := (\<lambda>evs r. Some Forbidden)\<rparr>"

definition demo_state :: state where
  "demo_state =
     \<lparr>nickname_role_db = [(''Falcon'', [10, 20]), (''Ghost'', [99])],
      pending_verifications = [(7, 42)]\<rparr>"

definition dm_from :: "int \<Rightarrow> string \<Rightarrow> message" where
  "dm_from u txt = \<lparr>author_bot = False, author_id = u, is_dm = True, content = txt\<rparr>"

section \<open>Trimming\<close>

text \<open>\<open>strip\<close> cuts a run of whitespace from each end and keeps what lies between: the
  string is whitespace, the stripped string, whitespace, and a non-empty stripped string
  neither starts nor ends with whitespace.\<close>

lemma strip_decompose:
  "s = takeWhile py_isspace s @ strip s
         @ rev (takeWhile py_isspace (rev (dropWhile py_isspace s)))"
proof -
  let ?m = "dropWhile py_isspace s"
  have "rev ?m = takeWhile py_isspace (rev ?m) @ dropWhile py_isspace (rev ?m)" by simp
  then have "?m = rev (dropWhile py_isspace (rev ?m)) @ rev (takeWhile py_isspace (rev ?m))"
    by (metis rev_append rev_rev_ident)
  then have "?m = strip s @ rev (takeWhile py_isspace (rev ?m))" by (simp add: strip_def)
  moreover have "s = takeWhile py_isspace s @ ?m" by simp
  ultimately show ?thesis by metis
qed

lemma strip_ends:
  assumes ne: "strip s \<noteq> []"
  shows "\<not> py_isspace (hd (strip s)) \<and> \<not> py_isspace (last (strip s))"
proof -
  let ?m = "dropWhile py_isspace s"
  have r: "dropWhile py_isspace (rev ?m) \<noteq> []" using ne by (simp add: strip_def)
  then have "\<not> py_isspace (hd (dropWhile py_isspace (rev ?m)))" by (rule hd_dropWhile)
  then have l: "\<not> py_isspace (last (strip s))" using r by (simp add: strip_def last_rev)
  have m: "?m = strip s @ rev (takeWhile py_isspace (rev ?m))"
    by (metis strip_def rev_append rev_rev_ident takeWhile_dropWhile_id)
  have "?m \<noteq> []" using ne m by (metis append_is_Nil_conv)
  then have "\<not> py_isspace (hd ?m)" by (rule hd_dropWhile)
  moreover have "hd ?m = hd (strip s)" using ne m by (metis hd_append2)
  ultimately show ?thesis using l by simp
qed

section \<open>The loop over the registered role ids\<close>

text \<open>When the loop returns, it has computed the lists of the specification: what it
  appended to \<^verbatim>\<open>roles_to_add_objects\<close> is \<open>assignable\<close>, what it appended to
  \<^verbatim>\<open>not_found_role_ids\<close> is \<open>unknown_removed\<close>, and it has sent one notice per role of
  \<open>unassignable_by_hierarchy\<close>.\<close>

lemma resolve_roles_returned:
  "resolve_roles p g ids a n e = Inr (a', n', e') \<Longrightarrow>
     a' = a @ assignable p g ids \<and> n' = n @ unknown_removed g ids
     \<and> e' = e @ map blocked_notice (unassignable_by_hierarchy p g ids)"
proof (induction ids arbitrary: a n e)
  case Nil
  then show ?case
    by (simp add: assignable_def unassignable_by_hierarchy_def unknown_removed_def resolved_def
        map_filter_simps)
next
  case (Cons rid rest)
  show ?case
  proof (cases "get_role g rid")
    case None
    with Cons.prems have "resolve_roles p g rest a (n @ [rid]) e = Inr (a', n', e')" by simp
    from Cons.IH [OF this] None show ?thesis
      by (simp add: assignable_def unassignable_by_hierarchy_def unknown_removed_def
          resolved_def map_filter_simps)
  next
    case (Some r)
    show ?thesis
    proof (cases "role_gt p (me_top_role g) r")
      case True
      with Cons.prems Some have "resolve_roles p g rest (a @ [r]) n e = Inr (a', n', e')" by simp
      from Cons.IH [OF this] Some True show ?thesis
        by (simp add: assignable_def unassignable_by_hierarchy_def unknown_removed_def
            resolved_def map_filter_simps)
    next
      case False
      with Cons.prems Some have
        "resolve_roles p g rest a n (e @ [blocked_notice r]) = Inr (a', n', e')"
        by (simp add: blocked_notice_def split: option.splits)
      from Cons.IH [OF this] Some False show ?thesis
        by (simp add: assignable_def unassignable_by_hierarchy_def unknown_removed_def
            resolved_def map_filter_simps)
    qed
  qed
qed

text \<open>When every notice is delivered the loop returns.\<close>

lemma resolve_roles_delivered:
  "(\<And>evs r. send_result p evs r = None) \<Longrightarrow>
     resolve_roles p g ids a n e =
       Inr (a @ assignable p g ids, n @ unknown_removed g ids,
            e @ map blocked_notice (unassignable_by_hierarchy p g ids))"
proof (induction ids arbitrary: a n e)
  case Nil
  show ?case
    by (simp add: assignable_def unassignable_by_hierarchy_def unknown_removed_def resolved_def
        map_filter_simps)
next
  case (Cons rid rest)
  show ?case
    by (cases "get_role g rid")
       (simp_all add: Cons assignable_def unassignable_by_hierarchy_def unknown_removed_def
          resolved_def map_filter_simps blocked_notice_def)
qed

text \<open>A loop over ids none of which resolves sends nothing and returns.\<close>

lemma resolve_roles_unresolved:
  "list_all (\<lambda>rid. get_role g rid = None) ids \<Longrightarrow>
     resolve_roles p g ids a n e = Inr (a, n @ ids, e)"
  by (induction ids arbitrary: n) simp_all

text \<open>The loop issues notices only: no deletion from the pending dictionary and no
  \<^verbatim>\<open>add_roles\<close>, whether it returns or raises.\<close>

lemma resolve_roles_calls:
  "(resolve_roles p g ids a n e = Inr (a', n', e') \<longrightarrow>
      filter is_del_pending e' = filter is_del_pending e
      \<and> filter is_add_roles e' = filter is_add_roles e)
   \<and> (resolve_roles p g ids a n e = Inl (x, e') \<longrightarrow>
      filter is_del_pending e' = filter is_del_pending e
      \<and> filter is_add_roles e' = filter is_add_roles e)"
proof (induction ids arbitrary: a n e)
  case Nil
  show ?case by simp
next
  case (Cons rid rest)
  show ?case
  proof (cases "get_role g rid")
    case None
    then show ?thesis using Cons [of a "n @ [rid]" e] by simp
  next
    case (Some r)
    show ?thesis
    proof (cases "role_gt p (me_top_role g) r")
      case True
      then show ?thesis using Some Cons [of "a @ [r]" n e] by simp
    next
      case False
      then show ?thesis
        using Some Cons [of a n "e @ [Send (NoPermissionForRole (role_name r))]"]
        by (auto simp: is_del_pending_def is_add_roles_def split: option.splits)
    qed
  qed
qed

section \<open>The \<^verbatim>\<open>try\<close> statement\<close>

lemma except_clause_calls:
  "snd (except_clause p r c evs) = evs @ [Send r]
   \<and> fst (except_clause p r c evs) \<in> {c} \<union> range Raised"
  by (simp add: except_clause_def channel_send_def split: option.splits)

lemma try_assign_calls:
  "filter is_del_pending (snd (try_assign p mem rs nf nick evs)) = filter is_del_pending evs
   \<and> filter is_add_roles (snd (try_assign p mem rs nf nick evs))
       = filter is_add_roles evs @ [AddRoles (member_id mem) rs (audit_reason nick)]"
  by (simp add: try_assign_def channel_send_def is_del_pending_def is_add_roles_def Let_def
      split: option.splits)

lemma assign_roles_cases:
  "assign_roles p mem rs nf nick evs = (Success, snd (try_assign p mem rs nf nick evs))
   \<or> (\<exists>r c. c \<in> {PermissionDenied, TransientFailure}
         \<and> assign_roles p mem rs nf nick evs
             = except_clause p r c (snd (try_assign p mem rs nf nick evs)))"
proof (cases "try_assign p mem rs nf nick evs")
  case (Pair x evs')
  show ?thesis
  proof (cases x)
    case None
    with Pair show ?thesis by (simp add: assign_roles_def)
  next
    case (Some e)
    with Pair show ?thesis by (cases e) (auto simp: assign_roles_def)
  qed
qed

lemma assign_roles_calls:
  "filter is_del_pending (snd (assign_roles p mem rs nf nick evs)) = filter is_del_pending evs
   \<and> filter is_add_roles (snd (assign_roles p mem rs nf nick evs))
       = filter is_add_roles evs @ [AddRoles (member_id mem) rs (audit_reason nick)]"
  using assign_roles_cases [of p mem rs nf nick evs] try_assign_calls [of p mem rs nf nick evs]
  by (auto simp: except_clause_calls is_del_pending_def is_add_roles_def)

lemma assign_roles_outcome:
  "fst (assign_roles p mem rs nf nick evs)
     \<in> {Success, PermissionDenied, TransientFailure} \<union> range Raised"
proof -
  from assign_roles_cases [of p mem rs nf nick evs] show ?thesis
  proof
    assume "assign_roles p mem rs nf nick evs = (Success, snd (try_assign p mem rs nf nick evs))"
    then show ?thesis by simp
  next
    assume "\<exists>r c. c \<in> {PermissionDenied, TransientFailure}
         \<and> assign_roles p mem rs nf nick evs
             = except_clause p r c (snd (try_assign p mem rs nf nick evs))"
    then obtain r c where c: "c \<in> {PermissionDenied, TransientFailure}"
      and a: "assign_roles p mem rs nf nick evs
             = except_clause p r c (snd (try_assign p mem rs nf nick evs))" by blast
    from except_clause_calls [of p r c "snd (try_assign p mem rs nf nick evs)"] c
    show ?thesis unfolding a by blast
  qed
qed

section \<open>Lookup and assignment\<close>

lemma not_recognized_calls:
  "snd (not_recognized p evs) = evs @ [Send NotRecognized]
   \<and> fst (not_recognized p evs) \<in> {NotFound} \<union> range Raised"
  by (simp add: not_recognized_def channel_send_def split: option.splits)

lemma match_and_assign_no_del:
  "filter is_del_pending (snd (match_and_assign p g mem nick db)) = []"
proof -
  have nr: "filter is_del_pending (snd (not_recognized p [Lookup nick])) = []"
    by (simp add: not_recognized_calls is_del_pending_def)
  have loop: "filter is_del_pending (snd (case resolve_roles p g ids [] [] [Lookup nick] of
               Inl (e, evs) \<Rightarrow> (Raised e, evs)
             | Inr (roles_to_add, not_found, evs) \<Rightarrow>
                 if roles_to_add \<noteq> [] then assign_roles p mem roles_to_add not_found nick evs
                 else if not_found = [] then (HierarchyBlocked, evs)
                 else (Unclassified, evs))) = []" for ids
  proof (cases "resolve_roles p g ids [] [] [Lookup nick]")
    case (Inl x)
    obtain e evs where x: "x = (e, evs)" by (cases x)
    from resolve_roles_calls [of p g ids "[]" "[]" "[Lookup nick]" _ _ evs e] Inl x
    show ?thesis by (simp add: is_del_pending_def)
  next
    case (Inr y)
    obtain a n evs where y: "y = (a, n, evs)" by (cases y)
    from resolve_roles_calls [of p g ids "[]" "[]" "[Lookup nick]" a n evs] Inr y
    show ?thesis by (simp add: is_del_pending_def assign_roles_calls)
  qed
  show ?thesis
    by (simp add: match_and_assign_def nr loop split: option.splits)
qed

lemma match_and_assign_outcome:
  "fst (match_and_assign p g mem nick db)
     \<in> {Success, NotFound, PermissionDenied, TransientFailure, HierarchyBlocked, Unclassified}
        \<union> range Raised"
proof -
  have a: "fst (assign_roles p mem rs nf nick evs)
     \<in> {Success, NotFound, PermissionDenied, TransientFailure, HierarchyBlocked, Unclassified}
        \<union> range Raised" for rs nf evs
    using assign_roles_outcome [of p mem rs nf nick evs] by blast
  have b: "fst (not_recognized p evs)
     \<in> {Success, NotFound, PermissionDenied, TransientFailure, HierarchyBlocked, Unclassified}
        \<union> range Raised" for evs
    using not_recognized_calls [of p evs] by blast
  show ?thesis
    unfolding match_and_assign_def using a b
    by (auto split: option.splits sum.splits prod.splits)
qed

section \<open>The message handler\<close>

lemma is_raised_simps:
  "is_raised (Raised e)" "\<not> is_raised Ignored" "\<not> is_raised StalePending"
  "\<not> is_raised GuildGone" "\<not> is_raised MemberGone" "\<not> is_raised Success"
  "\<not> is_raised NotFound" "\<not> is_raised PermissionDenied" "\<not> is_raised TransientFailure"
  "\<not> is_raised HierarchyBlocked" "\<not> is_raised Unclassified"
  by (simp_all add: is_raised_def)

text \<open>Past the three early returns the handler is the lookup and assignment, followed by
  the removal of the pending entry when no exception left the handler before.\<close>

lemma on_message_reached:
  assumes "\<not> author_bot msg" and "is_dm msg"
    and "map_of (pending_verifications s) (author_id msg) = Some gid" and "gid \<noteq> 0"
    and "get_guild p gid = Some g" and "get_member g (author_id msg) = Some mem"
  shows "on_message p msg s =
           (let r = match_and_assign p g mem (strip (content msg)) (nickname_role_db s) in
            if is_raised (fst r) then (fst r, snd r, s)
            else (fst r, snd r @ [DelPending (author_id msg)], del_pending (author_id msg) s))"
  using assms
  by (simp add: on_message_def remove_pending_def del_pending_def Let_def split: prod.splits)

lemma on_message_classified_reached:
  assumes "on_message p msg s = (c, evs, s')"
    and "c \<in> {Success, NotFound, PermissionDenied, TransientFailure, HierarchyBlocked,
               Unclassified} \<union> range Raised"
  shows "\<exists>gid g mem. \<not> author_bot msg \<and> is_dm msg
           \<and> map_of (pending_verifications s) (author_id msg) = Some gid \<and> gid \<noteq> 0
           \<and> get_guild p gid = Some g \<and> get_member g (author_id msg) = Some mem"
  using assms
  by (auto simp: on_message_def Let_def split: if_splits option.splits prod.splits)

lemma on_message_keeps_registry:
  "nickname_role_db (snd (snd (on_message p msg s))) = nickname_role_db s"
  by (simp add: on_message_def Let_def remove_pending_def del_pending_def
      split: option.splits prod.splits)

lemma del_pending_absent:
  "map_of (pending_verifications (del_pending u s)) u = None"
  by (simp add: del_pending_def delete_conv')

text \<open>A run that an exception leaves changes nothing: the pending entry is still there.\<close>

lemma raised_run_keeps_state:
  assumes "fst (on_message p msg s) = Raised e"
  shows "snd (snd (on_message p msg s)) = s"
proof -
  obtain evs s' where run: "on_message p msg s = (Raised e, evs, s')"
    using assms by (metis prod.collapse)
  have "Raised e \<in> {Success, NotFound, PermissionDenied, TransientFailure, HierarchyBlocked,
               Unclassified} \<union> range Raised" by simp
  from on_message_classified_reached [OF run this] obtain gid g mem where
    r: "\<not> author_bot msg" "is_dm msg"
       "map_of (pending_verifications s) (author_id msg) = Some gid" "gid \<noteq> 0"
       "get_guild p gid = Some g" "get_member g (author_id msg) = Some mem"
    by blast
  from run on_message_reached [OF r] show ?thesis
    by (auto simp: Let_def is_raised_simps split: if_splits)
qed

text \<open>A run that ends in a classification has removed the pending entry, as its last
  call and only once.\<close>

lemma classified_run_removes_pending:
  assumes run: "on_message p msg s = (c, evs, s')"
    and cls: "c \<in> {Success, NotFound, PermissionDenied, TransientFailure, HierarchyBlocked,
                    Unclassified}"
  shows "map_of (pending_verifications s') (author_id msg) = None
         \<and> evs \<noteq> [] \<and> last evs = DelPending (author_id msg)
         \<and> filter is_del_pending evs = [DelPending (author_id msg)]
         \<and> s' = del_pending (author_id msg) s"
proof -
  from cls have cls': "c \<in> {Success, NotFound, PermissionDenied, TransientFailure,
      HierarchyBlocked, Unclassified} \<union> range Raised" by blast
  from on_message_classified_reached [OF run cls'] obtain gid g mem where
    r: "\<not> author_bot msg" "is_dm msg"
       "map_of (pending_verifications s) (author_id msg) = Some gid" "gid \<noteq> 0"
       "get_guild p gid = Some g" "get_member g (author_id msg) = Some mem"
    by blast
  let ?r = "match_and_assign p g mem (strip (content msg)) (nickname_role_db s)"
  from run on_message_reached [OF r] cls have c: "c = fst ?r" and nr: "\<not> is_raised (fst ?r)"
    by (auto simp: Let_def is_raised_simps split: if_splits)
  from run on_message_reached [OF r] nr have
    evs: "evs = snd ?r @ [DelPending (author_id msg)]"
    and s': "s' = del_pending (author_id msg) s" by (simp_all add: Let_def)
  have "filter is_del_pending evs = [DelPending (author_id msg)]"
    by (simp add: evs match_and_assign_no_del) (simp add: is_del_pending_def)
  then show ?thesis using evs s' by (simp add: del_pending_absent)
qed

text \<open>The early return on a falsy guild id, and when it is taken.\<close>

lemma stale_entry_early_return:
  assumes "\<not> author_bot msg" and "is_dm msg"
  shows "(map_of (pending_verifications s) (author_id msg) = Some 0
            \<longrightarrow> on_message p msg s = (StalePending, [], s))
         \<and> (list_all (\<lambda>(u, gid). gid \<noteq> 0) (pending_verifications s)
            \<longrightarrow> fst (on_message p msg s) \<noteq> StalePending)"
proof -
  have a: "map_of (pending_verifications s) (author_id msg) = Some 0
            \<longrightarrow> on_message p msg s = (StalePending, [], s)"
    using assms by (simp add: on_message_def)
  have nz: "gid \<noteq> 0" if "list_all (\<lambda>(u, gid). gid \<noteq> 0) (pending_verifications s)"
      and "map_of (pending_verifications s) u = Some gid" for u gid
    using that by (auto simp: list_all_iff dest: map_of_SomeD)
  have ns: "match_and_assign p g mem nick db \<noteq> (StalePending, evs)" for g mem nick db evs
    using match_and_assign_outcome [of p g mem nick db] by (metis fst_conv UnE insertE
        emptyE outcome.distinct rangeE)
  have c: "list_all (\<lambda>(u, gid). gid \<noteq> 0) (pending_verifications s)
            \<longrightarrow> fst (on_message p msg s) \<noteq> StalePending"
    using assms nz ns
    by (auto simp: on_message_def Let_def remove_pending_def split: option.splits prod.splits)
  from a c show ?thesis by blast
qed

text \<open>An entry that is still there after the reply of its user: either the stored guild id
  is 0, or an exception left the handler.\<close>

lemma kept_entry_stale_or_raised:
  assumes "\<not> author_bot msg" and "is_dm msg"
    and "map_of (pending_verifications s) (author_id msg) \<noteq> None"
    and "map_of (pending_verifications (snd (snd (on_message p msg s)))) (author_id msg) \<noteq> None"
  shows "map_of (pending_verifications s) (author_id msg) = Some 0
         \<or> is_raised (fst (on_message p msg s))"
  using assms
  by (auto simp: on_message_def Let_def remove_pending_def del_pending_def delete_conv'
      split: option.splits prod.splits if_splits)

text \<open>The runs of the handler on the small guild.\<close>

lemma strip_falcon: "strip ''  Falcon '' = ''Falcon''"
  by (simp add: strip_def py_isspace_def)

lemma strip_plain:
  "strip ''Ghost'' = ''Ghost'' \<and> strip ''Nobody'' = ''Nobody'' \<and> strip ''Pilot'' = ''Pilot''
   \<and> strip ''Admiral'' = ''Admiral''"
  by (simp add: strip_def py_isspace_def)

lemmas demo_defs = demo_state_def demo_platform_def closed_dm_platform_def demo_guild_def
  demo_member_def pilot_role_def admiral_role_def bot_role_def dm_from_def

lemmas handler_defs = on_message_def match_and_assign_def not_recognized_def assign_roles_def
  try_assign_def except_clause_def channel_send_def remove_pending_def del_pending_def
  audit_reason_def is_raised_def

lemma dm_from_sel:
  "author_id (dm_from u txt) = u \<and> \<not> author_bot (dm_from u txt) \<and> is_dm (dm_from u txt)
   \<and> content (dm_from u txt) = txt"
  by (simp add: dm_from_def)

text \<open>The Falcon example of the specification on the platform where every call returns.\<close>

lemma falcon_run:
  "on_message demo_platform (dm_from 7 ''  Falcon '') demo_state =
    (Success,
     [Lookup ''Falcon'', Send (NoPermissionForRole ''Admiral''),
      AddRoles 7 [pilot_role] ''Verified via nickname: Falcon'',
      Send (VerificationSuccessful [''Pilot'']), DelPending 7],
     \<lparr>nickname_role_db = [(''Falcon'', [10, 20]), (''Ghost'', [99])],
      pending_verifications = []\<rparr>)"
  by (simp add: handler_defs strip_falcon demo_defs)

section \<open>The claims about the message handler\<close>

text \<open>
  C1. The claim: for every direct-message reply of a pending user that the handler
  processes to a terminal classification, the pending entry is removed as the final step,
  so that the user is no longer pending afterwards. The removal is a plain statement at
  the end of the handler, and the messages of the \<^verbatim>\<open>except\<close> clauses are sent outside any
  \<^verbatim>\<open>try\<close>. Evaluated for user 7, pending for guild 42, who replies ``Pilot'', registered
  with role 20, and to whom no direct message can be sent. First with \<^verbatim>\<open>add_roles\<close> raising
  \<^verbatim>\<open>discord.Forbidden\<close>: the clause for it is entered, its message raises, and the handler
  is left with user 7 still pending. Then with \<^verbatim>\<open>add_roles\<close> returning: the role is granted,
  the success message raises inside the \<^verbatim>\<open>try\<close>, the clause for \<^verbatim>\<open>discord.Forbidden\<close> catches
  it, its own message raises, and user 7 is still pending.
\<close>

theorem raising_send_keeps_entry_pending:
  "on_message (closed_dm_platform\<lparr>add_roles := (\<lambda>m rs reason. Some Forbidden)\<rparr>)
      (dm_from 7 ''Pilot'') (demo_state\<lparr>nickname_role_db := [(''Pilot'', [20])]\<rparr>)
     = (Raised Forbidden,
        [Lookup ''Pilot'', AddRoles 7 [pilot_role] ''Verified via nickname: Pilot'',
         Send LacksManageRoles],
        demo_state\<lparr>nickname_role_db := [(''Pilot'', [20])]\<rparr>)
   \<and> on_message closed_dm_platform
      (dm_from 7 ''Pilot'') (demo_state\<lparr>nickname_role_db := [(''Pilot'', [20])]\<rparr>)
     = (Raised Forbidden,
        [Lookup ''Pilot'', AddRoles 7 [pilot_role] ''Verified via nickname: Pilot'',
         Send (VerificationSuccessful [''Pilot'']), Send LacksManageRoles],
        demo_state\<lparr>nickname_role_db := [(''Pilot'', [20])]\<rparr>)
   \<and> map_of (pending_verifications (demo_state\<lparr>nickname_role_db := [(''Pilot'', [20])]\<rparr>)) 7
       = Some 42"
  by (simp add: handler_defs strip_plain demo_defs)

text \<open>
  C2. When the registry maps the replied identifier to exactly one role id that no
  longer resolves to a role of the guild, the loop records the id as not found, nothing
  is assignable, \<^verbatim>\<open>add_roles\<close> is not called and the handler runs to its end. The claim
  goes on: the user receives a message in the style of ``not recognized''. The handler
  sends nothing on this path. Evaluated on the entry ``Ghost'' with the single id 99 that
  the guild does not know: the calls issued are the lookup and the deletion of the
  pending entry, and no message. No send is attempted, so the run is the same for a user
  to whom no direct message can be sent.
\<close>

theorem ghost_reply_sends_nothing:
  "resolve_roles demo_platform demo_guild [99] [] [] [] = Inr ([], [99], [])
   \<and> on_message demo_platform (dm_from 7 ''Ghost'') demo_state =
       (Unclassified, [Lookup ''Ghost'', DelPending 7],
        \<lparr>nickname_role_db = [(''Falcon'', [10, 20]), (''Ghost'', [99])],
         pending_verifications = []\<rparr>)
   \<and> on_message closed_dm_platform (dm_from 7 ''Ghost'') demo_state =
       (Unclassified, [Lookup ''Ghost'', DelPending 7],
        \<lparr>nickname_role_db = [(''Falcon'', [10, 20]), (''Ghost'', [99])],
         pending_verifications = []\<rparr>)"
  by (simp add: handler_defs strip_plain demo_defs)

text \<open>The same on every platform and for every entry none of whose ids resolves.\<close>

lemma unresolved_entry_reply_is_silent:
  assumes "\<not> author_bot msg" and "is_dm msg"
    and "map_of (pending_verifications s) (author_id msg) = Some gid" and "gid \<noteq> 0"
    and "get_guild p gid = Some g" and "get_member g (author_id msg) = Some mem"
    and "map_of (nickname_role_db s) (strip (content msg)) = Some ids" and "ids \<noteq> []"
    and "list_all (\<lambda>rid. get_role g rid = None) ids"
  shows "on_message p msg s =
           (Unclassified, [Lookup (strip (content msg)), DelPending (author_id msg)],
            del_pending (author_id msg) s)"
proof -
  have "match_and_assign p g mem (strip (content msg)) (nickname_role_db s)
          = (Unclassified, [Lookup (strip (content msg))])"
    by (simp add: match_and_assign_def assms(7,8) resolve_roles_unresolved [OF assms(9)])
  then show ?thesis
    by (simp add: on_message_reached [OF assms(1-6)] is_raised_simps)
qed

text \<open>
  C3. The claim: every role id of a matched entry that still resolves is assignable
  exactly when the acting account's top role is strictly above the role, and unassignable
  by hierarchy otherwise; and when the assignable list is not empty, one batched
  \<^verbatim>\<open>add_roles\<close> call is issued with exactly that list. The notice for an unassignable role is
  sent inside the loop and outside any \<^verbatim>\<open>try\<close>. Evaluated on the example of the
  specification, ``Falcon'' registered with the roles 10 and 20, role 10 above the acting
  account and role 20 below it, for a user to whom no direct message can be sent: role 20
  is assignable, the notice for role 10 raises, and the handler is left before
  \<^verbatim>\<open>add_roles\<close> is called.
\<close>

theorem raising_notice_skips_add_roles:
  "assignable closed_dm_platform demo_guild [10, 20] = [pilot_role]
   \<and> unassignable_by_hierarchy closed_dm_platform demo_guild [10, 20] = [admiral_role]
   \<and> resolve_roles closed_dm_platform demo_guild [10, 20] [] [] [Lookup ''Falcon'']
       = Inl (Forbidden, [Lookup ''Falcon'', Send (NoPermissionForRole ''Admiral'')])
   \<and> on_message closed_dm_platform (dm_from 7 ''  Falcon '') demo_state
       = (Raised Forbidden, [Lookup ''Falcon'', Send (NoPermissionForRole ''Admiral'')],
          demo_state)
   \<and> filter is_add_roles
        (fst (snd (on_message closed_dm_platform (dm_from 7 ''  Falcon '') demo_state))) = []"
  by (simp add: handler_defs strip_falcon demo_defs assignable_def unassignable_by_hierarchy_def
      resolved_def map_filter_simps is_add_roles_def)

text \<open>What the claim says holds of every run in which the notices of the loop are
  delivered: the loop returns the lists of the specification, and \<^verbatim>\<open>add_roles\<close> is called
  once with the assignable list when it is not empty, and not at all otherwise.\<close>

lemma delivered_notices_single_call:
  assumes "\<not> author_bot msg" and "is_dm msg"
    and "map_of (pending_verifications s) (author_id msg) = Some gid" and "gid \<noteq> 0"
    and "get_guild p gid = Some g" and "get_member g (author_id msg) = Some mem"
    and entry: "map_of (nickname_role_db s) (strip (content msg)) = Some ids"
    and loop: "resolve_roles p g ids [] [] [Lookup (strip (content msg))] = Inr (a, n, e)"
  shows "a = assignable p g ids \<and> n = unknown_removed g ids
         \<and> e = Lookup (strip (content msg))
                 # map blocked_notice (unassignable_by_hierarchy p g ids)
         \<and> filter is_add_roles (fst (snd (on_message p msg s))) =
             (if assignable p g ids = [] then []
              else [AddRoles (member_id mem) (assignable p g ids)
                      (audit_reason (strip (content msg)))])"
proof -
  let ?k = "strip (content msg)"
  from resolve_roles_returned [OF loop] have
    a: "a = assignable p g ids" and n: "n = unknown_removed g ids"
    and e: "e = Lookup ?k # map blocked_notice (unassignable_by_hierarchy p g ids)"
    by simp_all
  from resolve_roles_calls [of p g ids "[]" "[]" "[Lookup ?k]" a n e] loop
  have fe: "filter is_add_roles e = []" by (simp add: is_add_roles_def)
  have nf: "filter is_add_roles (snd (not_recognized p [Lookup ?k])) = []"
    by (simp add: not_recognized_calls is_add_roles_def)
  have m: "filter is_add_roles (snd (match_and_assign p g mem ?k (nickname_role_db s))) =
             (if a = [] then [] else [AddRoles (member_id mem) a (audit_reason ?k)])"
  proof (cases "ids = []")
    case True
    with loop have "a = []" by simp
    with True show ?thesis by (simp add: match_and_assign_def entry nf)
  next
    case False
    then show ?thesis
      by (simp add: match_and_assign_def entry loop fe assign_roles_calls)
  qed
  have "filter is_add_roles (fst (snd (on_message p msg s)))
          = filter is_add_roles (snd (match_and_assign p g mem ?k (nickname_role_db s)))"
    by (simp add: on_message_reached [OF assms(1-6)] Let_def is_add_roles_def)
  with m a n e show ?thesis by simp
qed

text \<open>
  C7. The claim: the reply is trimmed and looked up as it is, and for every identifier
  whose entry is absent or empty the handler classifies NotFound, assigns nothing and
  still removes the pending entry. The ``not recognized'' message is sent outside any
  \<^verbatim>\<open>try\<close>, before the removal. Evaluated for the reply ``Nobody'', which is not registered, of
  a user to whom no direct message can be sent: the message raises, the handler is left,
  and user 7 is still pending.
\<close>

theorem raising_not_recognized_keeps_entry:
  "map_of (nickname_role_db demo_state) (strip '' Nobody '') = None
   \<and> on_message closed_dm_platform (dm_from 7 '' Nobody '') demo_state
       = (Raised Forbidden, [Lookup ''Nobody'', Send NotRecognized], demo_state)
   \<and> map_of (pending_verifications
               (snd (snd (on_message closed_dm_platform (dm_from 7 '' Nobody '') demo_state)))) 7
       = Some 42"
proof -
  have st: "strip '' Nobody '' = ''Nobody''" by (simp add: strip_def py_isspace_def)
  show ?thesis by (simp add: handler_defs st demo_defs)
qed

text \<open>What the claim says holds of every run in which the message is delivered: the key
  is the trimmed reply, the run ends in NotFound exactly when the key has no entry or an
  empty one, and then the calls are the lookup, the message and the removal.\<close>

lemma delivered_unregistered_reply:
  assumes "\<not> author_bot msg" and "is_dm msg"
    and "map_of (pending_verifications s) (author_id msg) = Some gid" and "gid \<noteq> 0"
    and "get_guild p gid = Some g" and "get_member g (author_id msg) = Some mem"
    and entry: "map_of (nickname_role_db s) (strip (content msg)) = None
                \<or> map_of (nickname_role_db s) (strip (content msg)) = Some []"
    and sent: "send_result p [Lookup (strip (content msg))] NotRecognized = None"
  shows "on_message p msg s =
           (NotFound,
            [Lookup (strip (content msg)), Send NotRecognized, DelPending (author_id msg)],
            del_pending (author_id msg) s)"
proof -
  have "match_and_assign p g mem (strip (content msg)) (nickname_role_db s)
          = (NotFound, [Lookup (strip (content msg)), Send NotRecognized])"
    using entry by (auto simp: match_and_assign_def not_recognized_def channel_send_def sent)
  then show ?thesis
    by (simp add: on_message_reached [OF assms(1-6)] is_raised_simps)
qed

text \<open>
  C9. The claim: with a falsy guild id (0) stored for the replying user the handler
  returns at once, without a lookup and with the entry left in place; this is the only
  reply path that leaves the entry in place; and with every stored guild id different
  from 0 the branch is unreachable. The first and the last part hold
  (\<open>stale_entry_early_return\<close>). The middle part does not: evaluated for user 7, pending
  with guild id 42, who replies ``Admiral'', registered with role 10 above the acting
  account, and to whom no direct message can be sent. The notice raises, the early return
  was not taken, and the entry with guild id 42 is in place before and after.
\<close>

theorem raising_send_leaves_nonzero_entry:
  "map_of (pending_verifications (demo_state\<lparr>nickname_role_db := [(''Admiral'', [10])]\<rparr>)) 7
     = Some 42
   \<and> on_message closed_dm_platform (dm_from 7 ''Admiral'')
        (demo_state\<lparr>nickname_role_db := [(''Admiral'', [10])]\<rparr>)
       = (Raised Forbidden, [Lookup ''Admiral'', Send (NoPermissionForRole ''Admiral'')],
          demo_state\<lparr>nickname_role_db := [(''Admiral'', [10])]\<rparr>)
   \<and> fst (on_message closed_dm_platform (dm_from 7 ''Admiral'')
             (demo_state\<lparr>nickname_role_db := [(''Admiral'', [10])]\<rparr>)) \<noteq> StalePending
   \<and> map_of (pending_verifications
        (snd (snd (on_message closed_dm_platform (dm_from 7 ''Admiral'')
                     (demo_state\<lparr>nickname_role_db := [(''Admiral'', [10])]\<rparr>))))) 7
       = Some 42"
  by (simp add: handler_defs strip_plain demo_defs)

text \<open>
  C10. If at reply time the guild of the pending entry cannot be resolved, or the replying
  user is no longer a member of it, the handler deletes the pending entry and returns: the
  deletion is the only call issued (no lookup in the registry, no message, no
  \<^verbatim>\<open>add_roles\<close>), and the registry is unchanged.
\<close>

theorem unresolved_guild_or_member_cleanup:
  assumes "\<not> author_bot msg" and "is_dm msg"
    and "map_of (pending_verifications s) (author_id msg) = Some gid" and "gid \<noteq> 0"
    and "get_guild p gid = None
         \<or> (\<exists>g. get_guild p gid = Some g \<and> get_member g (author_id msg) = None)"
  shows "snd (on_message p msg s) = ([DelPending (author_id msg)], del_pending (author_id msg) s)
         \<and> fst (on_message p msg s) \<in> {GuildGone, MemberGone}
         \<and> nickname_role_db (del_pending (author_id msg) s) = nickname_role_db s
         \<and> map_of (pending_verifications (del_pending (author_id msg) s)) (author_id msg) = None"
  using assms
  by (auto simp: on_message_def Let_def del_pending_def delete_conv')

text \<open>User 7 pending for guild 43, which the platform does not know, and for guild 44,
  where the user is not a member.\<close>

theorem unresolved_guild_or_member_cleanup_witness:
  "get_guild demo_platform 43 = None
   \<and> on_message demo_platform (dm_from 7 ''Falcon'')
        (demo_state\<lparr>pending_verifications := [(7, 43)]\<rparr>)
       = (GuildGone, [DelPending 7], demo_state\<lparr>pending_verifications := []\<rparr>)
   \<and> on_message demo_platform (dm_from 7 ''Falcon'')
        (demo_state\<lparr>pending_verifications := [(7, 44)]\<rparr>)
       = (MemberGone, [DelPending 7], demo_state\<lparr>pending_verifications := []\<rparr>)"
proof -
  let ?s = "demo_state\<lparr>pending_verifications := [(7, 43)]\<rparr>"
  let ?t = "demo_state\<lparr>pending_verifications := [(7, 44)]\<rparr>"
  have h1: "\<not> author_bot (dm_from 7 ''Falcon'')" and h2: "is_dm (dm_from 7 ''Falcon'')"
    by (simp_all add: dm_from_def)
  have s3: "map_of (pending_verifications ?s) (author_id (dm_from 7 ''Falcon'')) = Some 43"
    and t3: "map_of (pending_verifications ?t) (author_id (dm_from 7 ''Falcon'')) = Some 44"
    by (simp_all add: dm_from_def)
  have s4: "(43::int) \<noteq> 0" and t4: "(44::int) \<noteq> 0" by simp_all
  have s5: "get_guild demo_platform 43 = None
         \<or> (\<exists>g. get_guild demo_platform 43 = Some g
                \<and> get_member g (author_id (dm_from 7 ''Falcon'')) = None)"
    by (simp add: demo_platform_def)
  have t5: "get_guild demo_platform 44 = None
         \<or> (\<exists>g. get_guild demo_platform 44 = Some g
                \<and> get_member g (author_id (dm_from 7 ''Falcon'')) = None)"
    by (simp add: demo_platform_def)
  have e1: "fst (on_message demo_platform (dm_from 7 ''Falcon'') ?s) = GuildGone"
    by (simp add: on_message_def demo_platform_def dm_from_def)
  have e2: "fst (on_message demo_platform (dm_from 7 ''Falcon'') ?t) = MemberGone"
    by (simp add: on_message_def demo_platform_def dm_from_def)
  have g: "get_guild demo_platform 43 = None" by (simp add: demo_platform_def)
  from unresolved_guild_or_member_cleanup [OF h1 h2 s3 s4 s5]
       unresolved_guild_or_member_cleanup [OF h1 h2 t3 t4 t5] e1 e2 g
  show ?thesis
    by (simp add: dm_from_sel del_pending_def prod_eq_iff)
qed

section \<open>The claims about the registry\<close>

lemma grants_unique_update:
  "grants_unique db \<Longrightarrow> distinct ids \<Longrightarrow> grants_unique (AList.update k ids db)"
  by (induction db) (auto simp: grants_unique_def)

lemma grants_unique_lookup:
  "grants_unique db \<Longrightarrow> map_of db k = Some ids \<Longrightarrow> distinct ids"
  by (auto simp: grants_unique_def list_all_iff dest: map_of_SomeD)

lemma add_nickname_keeps_unique:
  assumes u: "grants_unique (nickname_role_db s)"
  shows "grants_unique (nickname_role_db (snd (snd (add_nickname nickname r s))))"
proof -
  have "grants_unique (AList.update k (ids @ [rid]) (nickname_role_db s))"
    if "map_of (nickname_role_db s) k = Some ids" and "rid \<notin> set ids" for k ids rid
    using grants_unique_lookup [OF u that(1)] that(2) by (simp add: grants_unique_update u)
  moreover have "grants_unique (AList.update k [rid] (nickname_role_db s))" for k rid
    by (simp add: grants_unique_update u)
  ultimately show ?thesis
    using u by (simp add: add_nickname_def Let_def split: option.splits)
qed

lemma add_nickname_keeps_pending:
  "pending_verifications (snd (snd (add_nickname nickname r s))) = pending_verifications s"
  by (simp add: add_nickname_def Let_def split: option.splits)

lemma on_member_join_stores_guild:
  "\<not> member_bot m \<Longrightarrow>
     map_of (pending_verifications (snd (on_member_join gname m s))) (member_id m)
       = Some (member_guild_id m)"
  by (simp add: on_member_join_def update_conv')

text \<open>The loader keeps a stored list element for element, after its filter.\<close>

lemma coerce_items_unique:
  "coerce_items kvs = Inr db \<Longrightarrow> grants_unique db \<longleftrightarrow> stored_unique kvs"
proof (induction kvs arbitrary: db)
  case Nil
  then show ?case by (simp add: grants_unique_def stored_unique_def)
next
  case (Cons kv kvs)
  obtain k v where kv: "kv = (k, v)" by (cases kv)
  from Cons.prems kv obtain ids db' where
    v: "coerce_value v = Inr ids" and r: "coerce_items kvs = Inr db'" and db: "db = (k, ids) # db'"
    by (auto split: sum.splits)
  from Cons.IH [OF r] show ?case
    by (simp add: kv v db grants_unique_def stored_unique_def)
qed

lemma coerce_items_lookup:
  "coerce_items kvs = Inr db \<Longrightarrow>
     map_of db k = map_option (\<lambda>v. projr (coerce_value v)) (map_of kvs k)"
proof (induction kvs arbitrary: db)
  case Nil
  then show ?case by simp
next
  case (Cons kv kvs)
  obtain k' v where kv: "kv = (k', v)" by (cases kv)
  from Cons.prems kv obtain ids db' where
    v: "coerce_value v = Inr ids" and r: "coerce_items kvs = Inr db'" and db: "db = (k', ids) # db'"
    by (auto split: sum.splits)
  from Cons.IH [OF r] show ?case by (simp add: kv v db)
qed

text \<open>What holds of \<^verbatim>\<open>load_database\<close>: a missing file, an \<^verbatim>\<open>IOError\<close> and a
  \<^verbatim>\<open>JSONDecodeError\<close> give the empty registry, and in an object a value that is not a list
  is loaded as the empty list.\<close>

lemma load_fails_open:
  "load_database NoFile = Inr [] \<and> load_database Unreadable = Inr []
   \<and> load_database Malformed = Inr []"
  by simp

lemma load_non_list_value:
  assumes "load_database (Document (JObj kvs)) = Inr db"
    and "map_of (dict_of_members kvs) k = Some v" and "\<And>rs. v \<noteq> JArr rs"
  shows "map_of db k = Some []"
proof -
  have "coerce_value v = Inr []" using assms(3) by (cases v) auto
  then show ?thesis using assms(1,2) by (simp add: coerce_items_lookup)
qed

lemma load_needs_object:
  "(\<And>kvs. d \<noteq> JObj kvs) \<Longrightarrow> load_database (Document d) = Inl AttributeError"
  by (cases d) auto

lemma load_not_a_list:
  "load_database (Document (JObj [(''X'', JStr ''not-a-list'')])) = Inr [(''X'', [])]"
  by (simp add: dict_of_members_def py_isdigit_def py_isdigit_char_def ascii_digit_def)

lemma load_superscript_digit:
  "load_database (Document (JObj [(''X'', JArr [JStr [CHR 0xB2]])])) = Inl ValueError"
  by (simp add: dict_of_members_def py_isdigit_def py_isdigit_char_def ascii_digit_def
      py_int_of_digits_def)

text \<open>
  C4. The claim: the load never terminates the process; a missing file gives the empty
  registry, corrupt or unreadable content is logged and gives the empty registry, and a
  value that is not a list is coerced to the empty list. The \<^verbatim>\<open>except\<close> clause of the source
  catches \<^verbatim>\<open>JSONDecodeError\<close> and \<^verbatim>\<open>IOError\<close> only. A stored document that is valid JSON but
  not an object, such as \<^verbatim>\<open>[]\<close>, makes \<^verbatim>\<open>nickname_role_db.items()\<close> raise \<^verbatim>\<open>AttributeError\<close>,
  which leaves \<^verbatim>\<open>load_database\<close> and, raised before \<^verbatim>\<open>bot.run\<close>, ends the process.
\<close>

theorem load_non_object_document_raises:
  "load_database (Document (JArr [])) = Inl AttributeError"
  by simp

text \<open>
  C5. For a nickname that is not empty after trimming: when the trimmed nickname has no
  entry, the command creates the entry with the one role id, saves and answers ``added'';
  when it has an entry without the role id, the id is appended, the registry saved and the
  answer is ``updated''; when the entry already holds the role id, the answer is that
  nothing changed, the state is the same and \<^verbatim>\<open>save_database\<close> is not called.
\<close>

theorem add_nickname_outcomes:
  assumes "strip nickname \<noteq> []"
  shows "(map_of (nickname_role_db s) (strip nickname) = None \<longrightarrow>
            add_nickname nickname r s =
              (Linked ''added'' (strip nickname) (role_name r),
               [SaveDatabase (AList.update (strip nickname) [role_id r] (nickname_role_db s))],
               s\<lparr>nickname_role_db :=
                   AList.update (strip nickname) [role_id r] (nickname_role_db s)\<rparr>)
            \<and> map_of (nickname_role_db (snd (snd (add_nickname nickname r s)))) (strip nickname)
                = Some [role_id r])
         \<and> (\<forall>ids. map_of (nickname_role_db s) (strip nickname) = Some ids
                  \<and> role_id r \<notin> set ids \<longrightarrow>
            add_nickname nickname r s =
              (Linked ''updated'' (strip nickname) (role_name r),
               [SaveDatabase
                  (AList.update (strip nickname) (ids @ [role_id r]) (nickname_role_db s))],
               s\<lparr>nickname_role_db :=
                   AList.update (strip nickname) (ids @ [role_id r]) (nickname_role_db s)\<rparr>)
            \<and> map_of (nickname_role_db (snd (snd (add_nickname nickname r s)))) (strip nickname)
                = Some (ids @ [role_id r]))
         \<and> (\<forall>ids. map_of (nickname_role_db s) (strip nickname) = Some ids
                  \<and> role_id r \<in> set ids \<longrightarrow>
            add_nickname nickname r s = (AlreadyLinked (strip nickname) (role_name r), [], s))"
  using assms by (simp add: add_nickname_def save_database_def Let_def update_conv')

text \<open>Three commands in a row on the empty registry: ``Falcon'' with role 20 is added,
  with role 10 it is updated, with role 20 again nothing changes and nothing is saved.\<close>

theorem add_nickname_outcomes_witness:
  "strip '' Falcon '' \<noteq> []
   \<and> add_nickname '' Falcon '' pilot_role \<lparr>nickname_role_db = [], pending_verifications = []\<rparr>
       = (Linked ''added'' ''Falcon'' ''Pilot'', [SaveDatabase [(''Falcon'', [20])]],
          \<lparr>nickname_role_db = [(''Falcon'', [20])], pending_verifications = []\<rparr>)
   \<and> add_nickname '' Falcon '' admiral_role
        \<lparr>nickname_role_db = [(''Falcon'', [20])], pending_verifications = []\<rparr>
       = (Linked ''updated'' ''Falcon'' ''Admiral'', [SaveDatabase [(''Falcon'', [20, 10])]],
          \<lparr>nickname_role_db = [(''Falcon'', [20, 10])], pending_verifications = []\<rparr>)
   \<and> add_nickname '' Falcon '' pilot_role
        \<lparr>nickname_role_db = [(''Falcon'', [20, 10])], pending_verifications = []\<rparr>
       = (AlreadyLinked ''Falcon'' ''Pilot'', [],
          \<lparr>nickname_role_db = [(''Falcon'', [20, 10])], pending_verifications = []\<rparr>)"
proof -
  have st: "strip '' Falcon '' = ''Falcon''" by (simp add: strip_def py_isspace_def)
  then have ne: "strip '' Falcon '' \<noteq> []" by simp
  from add_nickname_outcomes [OF ne, of "\<lparr>nickname_role_db = [], pending_verifications = []\<rparr>"
         pilot_role]
  have a: "add_nickname '' Falcon '' pilot_role \<lparr>nickname_role_db = [], pending_verifications = []\<rparr>
       = (Linked ''added'' ''Falcon'' ''Pilot'', [SaveDatabase [(''Falcon'', [20])]],
          \<lparr>nickname_role_db = [(''Falcon'', [20])], pending_verifications = []\<rparr>)"
    by (simp add: st pilot_role_def)
  from add_nickname_outcomes [OF ne,
         of "\<lparr>nickname_role_db = [(''Falcon'', [20])], pending_verifications = []\<rparr>" admiral_role]
  have b: "add_nickname '' Falcon '' admiral_role
        \<lparr>nickname_role_db = [(''Falcon'', [20])], pending_verifications = []\<rparr>
       = (Linked ''updated'' ''Falcon'' ''Admiral'', [SaveDatabase [(''Falcon'', [20, 10])]],
          \<lparr>nickname_role_db = [(''Falcon'', [20, 10])], pending_verifications = []\<rparr>)"
    by (simp add: st admiral_role_def)
  from add_nickname_outcomes [OF ne,
         of "\<lparr>nickname_role_db = [(''Falcon'', [20, 10])], pending_verifications = []\<rparr>" pilot_role]
  have c: "add_nickname '' Falcon '' pilot_role
        \<lparr>nickname_role_db = [(''Falcon'', [20, 10])], pending_verifications = []\<rparr>
       = (AlreadyLinked ''Falcon'' ''Pilot'', [],
          \<lparr>nickname_role_db = [(''Falcon'', [20, 10])], pending_verifications = []\<rparr>)"
    by (simp add: st pilot_role_def)
  from ne a b c show ?thesis by blast
qed

text \<open>
  C8. A nickname that is empty after trimming is rejected before anything changes: for
  every role the answer is that the nickname cannot be empty, the state is the same and
  \<^verbatim>\<open>save_database\<close> is not called.
\<close>

theorem empty_nickname_rejected:
  assumes "strip nickname = []"
  shows "add_nickname nickname r s = (EmptyNickname, [], s)"
  using assms by (simp add: add_nickname_def)

text \<open>The empty nickname and a nickname of blanks.\<close>

theorem empty_nickname_rejected_witness:
  "strip '''' = [] \<and> add_nickname '''' pilot_role demo_state = (EmptyNickname, [], demo_state)
   \<and> strip ''   '' = []
   \<and> add_nickname ''   '' admiral_role demo_state = (EmptyNickname, [], demo_state)"
proof -
  have e1: "strip '''' = []" and e2: "strip ''   '' = []"
    by (simp_all add: strip_def py_isspace_def)
  from empty_nickname_rejected [OF e1, of pilot_role demo_state]
       empty_nickname_rejected [OF e2, of admiral_role demo_state] e1 e2
  show ?thesis by blast
qed

text \<open>
  C6, as stated, also promises that a load from the backing store yields no role id twice
  in a list. The loader filters and converts the elements of a stored list and keeps all
  that pass: the stored list \<^verbatim>\<open>[5, 5]\<close> is loaded as it is.
\<close>

theorem load_keeps_repeated_grant:
  "load_database (Document (JObj [(''X'', JArr [JInt 5, JInt 5])])) = Inr [(''X'', [5, 5])]
   \<and> \<not> grants_unique [(''X'', [5, 5])]"
  by (simp add: dict_of_members_def grants_unique_def)

text \<open>
  C6, amended. Registration keeps the invariant that no role id stands twice in the list
  of a nickname, and the message handler never changes the registry. A registry loaded
  from a stored object has the invariant exactly when the stored lists, after the loader's
  filter, have no repeated id. Lookup returns the ids in insertion order: registering
  (nickname, a) and then (nickname, b), with different role ids and no entry before, yields
  the list of a followed by b.
\<close>

theorem registration_keeps_grants_unique:
  "(grants_unique (nickname_role_db s) \<longrightarrow>
      grants_unique (nickname_role_db (snd (snd (add_nickname nickname r s)))))
   \<and> nickname_role_db (snd (snd (on_message p msg s))) = nickname_role_db s
   \<and> (load_database (Document (JObj kvs)) = Inr db \<longrightarrow>
        (grants_unique db \<longleftrightarrow> stored_unique (dict_of_members kvs)))
   \<and> (strip nickname \<noteq> [] \<and> map_of (nickname_role_db s) (strip nickname) = None
        \<and> role_id a \<noteq> role_id b \<longrightarrow>
      map_of (nickname_role_db
                (snd (snd (add_nickname nickname b (snd (snd (add_nickname nickname a s)))))))
        (strip nickname) = Some [role_id a, role_id b])"
proof -
  have o: "strip nickname \<noteq> [] \<and> map_of (nickname_role_db s) (strip nickname) = None
        \<and> role_id a \<noteq> role_id b \<longrightarrow>
      map_of (nickname_role_db
                (snd (snd (add_nickname nickname b (snd (snd (add_nickname nickname a s)))))))
        (strip nickname) = Some [role_id a, role_id b]"
    by (simp add: add_nickname_def Let_def update_conv')
  from o show ?thesis
    using add_nickname_keeps_unique coerce_items_unique on_message_keeps_registry by simp
qed

text \<open>The registry of the small guild has the invariant and keeps it when role 10 is
  registered for ``Ghost''; the stored object with the list \<^verbatim>\<open>[5, "6", -1, true]\<close> is loaded
  as the list of 5 and 6, without repetition; ``Falcon'' registered on the empty registry
  with role 20 and then role 10 is looked up as 20 followed by 10.\<close>

theorem registration_keeps_grants_unique_witness:
  "grants_unique (nickname_role_db demo_state)
   \<and> grants_unique (nickname_role_db (snd (snd (add_nickname ''Ghost'' admiral_role demo_state))))
   \<and> load_database (Document (JObj [(''X'', JArr [JInt 5, JStr ''6'', JInt (- 1), JBool True])]))
       = Inr [(''X'', [5, 6])]
   \<and> stored_unique (dict_of_members [(''X'', JArr [JInt 5, JStr ''6'', JInt (- 1), JBool True])])
   \<and> grants_unique [(''X'', [5, 6])]
   \<and> strip '' Falcon '' \<noteq> []
   \<and> role_id pilot_role \<noteq> role_id admiral_role
   \<and> map_of (nickname_role_db
               (snd (snd (add_nickname '' Falcon '' admiral_role
                  (snd (snd (add_nickname '' Falcon '' pilot_role
                     \<lparr>nickname_role_db = [], pending_verifications = []\<rparr>)))))))
        (strip '' Falcon '') = Some [20, 10]"
proof -
  let ?kvs = "[(''X'', JArr [JInt 5, JStr ''6'', JInt (- 1), JBool True])]"
  let ?e = "\<lparr>nickname_role_db = [], pending_verifications = []\<rparr>"
  have u: "grants_unique (nickname_role_db demo_state)"
    by (simp add: grants_unique_def demo_state_def)
  have l: "load_database (Document (JObj ?kvs)) = Inr [(''X'', [5, 6])]"
    by (simp add: dict_of_members_def py_isdigit_def py_isdigit_char_def ascii_digit_def
        py_int_of_digits_def)
  have st: "strip '' Falcon '' = ''Falcon''" by (simp add: strip_def py_isspace_def)
  have ne: "strip '' Falcon '' \<noteq> []" by (simp add: st)
  have ab: "role_id pilot_role \<noteq> role_id admiral_role"
    by (simp add: pilot_role_def admiral_role_def)
  have none: "map_of (nickname_role_db ?e) (strip '' Falcon '') = None" by simp
  note t1 = registration_keeps_grants_unique
    [of demo_state "''Ghost''" admiral_role demo_platform "dm_from 7 ''Ghost''" ?kvs
        "[(''X'', [5, 6])]" admiral_role admiral_role]
  note t2 = registration_keeps_grants_unique
    [of ?e "'' Falcon ''" admiral_role demo_platform "dm_from 7 ''Ghost''" ?kvs
        "[(''X'', [5, 6])]" pilot_role admiral_role]
  from t1 u have r1:
    "grants_unique (nickname_role_db (snd (snd (add_nickname ''Ghost'' admiral_role demo_state))))"
    by blast
  have g: "grants_unique [(''X'', [5, 6])]" by (simp add: grants_unique_def)
  from t1 l g have r2: "stored_unique (dict_of_members ?kvs)" by blast
  from t2 ne none ab have r3:
    "map_of (nickname_role_db
               (snd (snd (add_nickname '' Falcon '' admiral_role
                  (snd (snd (add_nickname '' Falcon '' pilot_role ?e)))))))
        (strip '' Falcon '') = Some [role_id pilot_role, role_id admiral_role]"
    by blast
  then have r3': "map_of (nickname_role_db
               (snd (snd (add_nickname '' Falcon '' admiral_role
                  (snd (snd (add_nickname '' Falcon '' pilot_role ?e)))))))
        (strip '' Falcon '') = Some [20, 10]"
    by (simp add: pilot_role_def admiral_role_def)
  from u r1 l r2 g ne ab r3' show ?thesis by blast
qed


end
